theory Spec2Isabelle
  imports Complex_Main "HOL-Library.Multiset"
begin

section \<open>Data model\<close>

text \<open>
  The persistent entities of the marketplace, as the route handlers read and write them
  through the ORM. Identifiers are strings. Timestamps are milliseconds since the epoch
  (the resolution of a JavaScript \<open>Date\<close>). The seller statistics are JavaScript numbers;
  \<open>completedDeals\<close> is a 32-bit integer column, counted from 0; \<open>cancellationRate\<close>
  (between 0 and 1) and \<open>avgRating\<close> are double-precision columns, and a double is
  modelled by the real number it denotes. A transaction carries the fields that the
  handlers below name; its bookkeeping columns (\<open>createdAt\<close>, \<open>updatedAt\<close>,
  \<open>meetupTime\<close>) are left out.
\<close>

datatype TransactionStatus =
  REQUESTED | ACCEPTED | PAID | MEETING | COMPLETED | CANCELLED | REFUNDED

datatype AvailabilityStatus = AVAILABLE | SOLD | OtherAvailability string

record transaction =
  buyerId :: string
  sellerId :: string
  itemId :: string
  status :: TransactionStatus
  escrowAmount :: real
  paymentId :: "string option"
  meetupLocation :: "string option"
  countdownStart :: "int option"
  countdownEnd :: "int option"

record item =
  availabilityStatus :: AvailabilityStatus

record user =
  name :: string
  verificationStatus :: string
  avgRating :: real
  completedDeals :: int
  cancellationRate :: real
  trustScore :: int
  badges :: "string list"

record message =
  transactionId :: string
  senderId :: string
  content :: string
  createdAt :: int
  isAI :: bool

record db =
  transactions :: "string \<rightharpoonup> transaction"
  items :: "string \<rightharpoonup> item"
  users :: "string \<rightharpoonup> user"
  messages :: "message list"

section \<open>Arithmetic on JavaScript numbers\<close>

text \<open>
  The handlers compute with IEEE-754 double-precision numbers: the result of an
  operation is the exact result rounded to the nearest double, ties to the even
  significand. A double has a significand of 53 bits, and its quantum is at least
  \<open>2 powr - 1074\<close>. \<open>binary64 x\<close> is the double nearest to the real \<open>x\<close>, for a
  magnitude below \<open>2 powr 1024\<close>; larger results and division by zero (which give
  \<open>Infinity\<close> or \<open>NaN\<close>) do not arise from the statistics of a stored user.
\<close>

definition round_half_even :: "real \<Rightarrow> int" where
  "round_half_even x =
     (let f = \<lfloor>x\<rfloor>
      in if x - of_int f < 1 / 2 then f
         else if 1 / 2 < x - of_int f then f + 1
         else if even f then f else f + 1)"

definition binary64 :: "real \<Rightarrow> real" where
  "binary64 x =
     (if x = 0 then 0
      else let e = max (\<lfloor>log 2 \<bar>x\<bar>\<rfloor> - 52) (- 1074)
           in of_int (round_half_even (x / 2 powr of_int e)) * 2 powr of_int e)"

text \<open>
  A real number is a double when rounding leaves it as it is: the value of a
  double-precision column is one.
\<close>

definition is_double :: "real \<Rightarrow> bool" where
  "is_double x \<longleftrightarrow> binary64 x = x"

text \<open>
  The operators \<open>*\<close> and \<open>/\<close> of JavaScript on two numbers.
\<close>

definition number_times :: "real \<Rightarrow> real \<Rightarrow> real" where
  "number_times a b = binary64 (a * b)"

definition number_divide :: "real \<Rightarrow> real \<Rightarrow> real" where
  "number_divide a b = binary64 (a / b)"

text \<open>
  The template literals of the handlers interpolate the status enum, which prints as its
  name.
\<close>

fun status_name :: "TransactionStatus \<Rightarrow> string" where
  "status_name REQUESTED = ''REQUESTED''"
| "status_name ACCEPTED = ''ACCEPTED''"
| "status_name PAID = ''PAID''"
| "status_name MEETING = ''MEETING''"
| "status_name COMPLETED = ''COMPLETED''"
| "status_name CANCELLED = ''CANCELLED''"
| "status_name REFUNDED = ''REFUNDED''"

section \<open>Responses and store writes\<close>

text \<open>
  A handler answers either with an error body and its HTTP status code (\<open>Inl\<close>) or with
  its payload (\<open>Inr\<close>). Every handler body sits in a \<open>try\<close> block whose \<open>catch\<close> answers
  500, so an awaited store call that throws ends the request there; the writes that
  were already awaited stay in the store, since no handler opens a store transaction.
  A handler takes the caller that the token resolves to (\<open>None\<close> without a valid token)
  and the outcome of checking the payload against its schema.
\<close>

type_synonym failure = "nat \<times> string"

definition unauthorized :: failure where
  "unauthorized = (401, ''Unauthorized'')"

definition validation_failed :: failure where
  "validation_failed = (400, ''Validation failed'')"

definition transaction_not_found :: failure where
  "transaction_not_found = (404, ''Transaction not found'')"

definition internal_server_error :: failure where
  "internal_server_error = (500, ''Internal server error'')"

text \<open>
  \<open>prisma.<model>.update({where: {id}, data})\<close>: throws when the call fails (the flag
  \<open>throws\<close>: connection loss, timeout) or when no record has the id; otherwise the
  fields named in \<open>data\<close> are overwritten, which is the function \<open>data\<close> here. An empty
  \<open>data\<close> object names no field and is the identity.
\<close>

definition transaction_update ::
  "bool \<Rightarrow> db \<Rightarrow> string \<Rightarrow> (transaction \<Rightarrow> transaction) \<Rightarrow> db option" where
  "transaction_update throws d tid data =
     (if throws then None
      else case transactions d tid of
             None \<Rightarrow> None
           | Some t \<Rightarrow> Some (d\<lparr>transactions := (transactions d)(tid \<mapsto> data t)\<rparr>))"

definition item_update ::
  "bool \<Rightarrow> db \<Rightarrow> string \<Rightarrow> (item \<Rightarrow> item) \<Rightarrow> db option" where
  "item_update throws d iid data =
     (if throws then None
      else case items d iid of
             None \<Rightarrow> None
           | Some i \<Rightarrow> Some (d\<lparr>items := (items d)(iid \<mapsto> data i)\<rparr>))"

definition user_update ::
  "bool \<Rightarrow> db \<Rightarrow> string \<Rightarrow> (user \<Rightarrow> user) \<Rightarrow> db option" where
  "user_update throws d uid data =
     (if throws then None
      else case users d uid of
             None \<Rightarrow> None
           | Some u \<Rightarrow> Some (d\<lparr>users := (users d)(uid \<mapsto> data u)\<rparr>))"

text \<open>
  \<open>findUnique\<close> with \<open>include: {seller, buyer, item}\<close>: \<open>null\<close> when the transaction is
  absent; the relations are required, so a transaction whose seller, buyer or item row
  is missing makes the query throw.
\<close>

datatype 'a found = Absent | Inconsistent | Found 'a

definition findUnique_include ::
  "db \<Rightarrow> string \<Rightarrow> (transaction \<times> user \<times> user \<times> item) found" where
  "findUnique_include d tid =
     (case transactions d tid of
        None \<Rightarrow> Absent
      | Some t \<Rightarrow>
          (case (users d (sellerId t), users d (buyerId t), items d (itemId t)) of
             (Some s, Some b, Some i) \<Rightarrow> Found (t, s, b, i)
           | _ \<Rightarrow> Inconsistent))"

section \<open>The transaction state machine\<close>

subsection \<open>pay\<close>

text \<open>
  \<open>POST /api/transactions/pay\<close>. \<open>caller\<close> is the result of \<open>getUserFromRequest\<close>,
  \<open>body\<close> the result of parsing the payload (\<open>transactionId\<close>, \<open>paymentId\<close>), \<open>None\<close>
  when the schema rejects it. The handler reads the clock twice: \<open>new Date()\<close> gives
  \<open>countdownStart\<close> and \<open>Date.now()\<close> is the base of \<open>countdownEnd\<close>; \<open>clock1\<close> and
  \<open>clock2\<close> are these two readings.
\<close>

definition MEETUP_TIMEOUT_HOURS :: int where
  "MEETUP_TIMEOUT_HOURS = 24"

definition pay ::
  "bool \<Rightarrow> int \<Rightarrow> int \<Rightarrow> string option \<Rightarrow> (string \<times> string) option \<Rightarrow> db
     \<Rightarrow> (failure + transaction) \<times> db" where
  "pay throws clock1 clock2 caller body d =
     (case caller of
        None \<Rightarrow> (Inl unauthorized, d)
      | Some userId \<Rightarrow>
     (case body of
        None \<Rightarrow> (Inl validation_failed, d)
      | Some (tid, pid) \<Rightarrow>
     (case transactions d tid of
        None \<Rightarrow> (Inl transaction_not_found, d)
      | Some t \<Rightarrow>
          if buyerId t \<noteq> userId
          then (Inl (403, ''Only the buyer can pay for this transaction''), d)
          else if status t \<noteq> ACCEPTED
          then (Inl (400, ''Cannot pay for transaction in '' @ status_name (status t)
                            @ '' status''), d)
          else
            let countdownStart' = clock1;
                countdownEnd' = clock2 + MEETUP_TIMEOUT_HOURS * 60 * 60 * 1000
            in (case transaction_update throws d tid
                       (\<lambda>r. r\<lparr>status := PAID, paymentId := Some pid,
                               countdownStart := Some countdownStart',
                               countdownEnd := Some countdownEnd'\<rparr>) of
                  None \<Rightarrow> (Inl internal_server_error, d)
                | Some d' \<Rightarrow>
                    (case transactions d' tid of
                       None \<Rightarrow> (Inl internal_server_error, d')
                     | Some t' \<Rightarrow> (Inr t', d'))))))"

subsection \<open>setMeetup\<close>

text \<open>
  \<open>POST /api/transactions/[id]/meetup\<close>; \<open>body\<close> is the parsed \<open>location\<close>.
\<close>

definition setMeetup ::
  "bool \<Rightarrow> string option \<Rightarrow> string \<Rightarrow> string option \<Rightarrow> db
     \<Rightarrow> (failure + transaction) \<times> db" where
  "setMeetup throws caller tid body d =
     (case caller of
        None \<Rightarrow> (Inl unauthorized, d)
      | Some userId \<Rightarrow>
     (case body of
        None \<Rightarrow> (Inl validation_failed, d)
      | Some location \<Rightarrow>
     (case transactions d tid of
        None \<Rightarrow> (Inl transaction_not_found, d)
      | Some t \<Rightarrow>
          if buyerId t \<noteq> userId \<and> sellerId t \<noteq> userId
          then (Inl (403, ''You are not part of this transaction''), d)
          else if status t \<notin> set [REQUESTED, ACCEPTED]
          then (Inl (400, ''Cannot set meetup location for transaction in ''
                            @ status_name (status t) @ '' status''), d)
          else
            (case transaction_update throws d tid
                    (\<lambda>r. r\<lparr>meetupLocation := Some location, status := MEETING\<rparr>) of
               None \<Rightarrow> (Inl internal_server_error, d)
             | Some d' \<Rightarrow>
                 (case transactions d' tid of
                    None \<Rightarrow> (Inl internal_server_error, d')
                  | Some t' \<Rightarrow> (Inr t', d'))))))"

subsection \<open>markPaid\<close>

text \<open>
  \<open>POST /api/transactions/[id]/mark-paid\<close>; \<open>valid\<close> is the outcome of the schema
  check of the path id and body.
\<close>

definition markPaid ::
  "bool \<Rightarrow> string option \<Rightarrow> string \<Rightarrow> bool \<Rightarrow> db \<Rightarrow> (failure + transaction) \<times> db" where
  "markPaid throws caller tid valid d =
     (case caller of
        None \<Rightarrow> (Inl unauthorized, d)
      | Some userId \<Rightarrow>
          if \<not> valid then (Inl validation_failed, d)
          else
     (case transactions d tid of
        None \<Rightarrow> (Inl transaction_not_found, d)
      | Some t \<Rightarrow>
          if buyerId t \<noteq> userId
          then (Inl (403, ''Only the buyer can mark payment as done''), d)
          else if status t \<noteq> MEETING
          then (Inl (400, ''Cannot mark payment for transaction in ''
                            @ status_name (status t) @ '' status. Must be MEETING.''), d)
          else
            (case transaction_update throws d tid
                    (\<lambda>r. r\<lparr>status := PAID, paymentId := Some ''physical_payment''\<rparr>) of
               None \<Rightarrow> (Inl internal_server_error, d)
             | Some d' \<Rightarrow>
                 (case transactions d' tid of
                    None \<Rightarrow> (Inl internal_server_error, d')
                  | Some t' \<Rightarrow> (Inr t', d')))))"

subsection \<open>confirmDelivery\<close>

text \<open>
  \<open>POST /api/transactions/[id]/confirm-delivery\<close>. From \<open>PAID\<close> the update writes
  \<open>status: MEETING\<close>; from \<open>MEETING\<close> it is called with an empty \<open>data\<close> object.
\<close>

definition confirmDelivery ::
  "bool \<Rightarrow> string option \<Rightarrow> string \<Rightarrow> bool \<Rightarrow> db \<Rightarrow> (failure + transaction) \<times> db" where
  "confirmDelivery throws caller tid valid d =
     (case caller of
        None \<Rightarrow> (Inl unauthorized, d)
      | Some userId \<Rightarrow>
          if \<not> valid then (Inl validation_failed, d)
          else
     (case findUnique_include d tid of
        Absent \<Rightarrow> (Inl transaction_not_found, d)
      | Inconsistent \<Rightarrow> (Inl internal_server_error, d)
      | Found (t, seller, buyer, it) \<Rightarrow>
          if sellerId t \<noteq> userId
          then (Inl (403, ''Only the seller can confirm delivery''), d)
          else if status t \<noteq> PAID \<and> status t \<noteq> MEETING
          then (Inl (400, ''Cannot confirm delivery for transaction in ''
                            @ status_name (status t)
                            @ '' status. Must be PAID or MEETING.''), d)
          else
            (case transaction_update throws d tid
                    (if status t = PAID then (\<lambda>r. r\<lparr>status := MEETING\<rparr>) else (\<lambda>r. r)) of
               None \<Rightarrow> (Inl internal_server_error, d)
             | Some d' \<Rightarrow>
                 (case transactions d' tid of
                    None \<Rightarrow> (Inl internal_server_error, d')
                  | Some t' \<Rightarrow> (Inr t', d')))))"

subsection \<open>markReceived\<close>

text \<open>
  \<open>POST /api/transactions/[id]/mark-received\<close>. The trust engine
  (\<open>lib/services/trust-engine\<close>) is a parameter: \<open>calculateTrustScore\<close> gives the score
  from verification status, average rating, completed deals and cancellation rate, and
  \<open>getEarnedBadges\<close> the badge list from completed deals, average rating and
  cancellation rate. The handler awaits four writes in a row (transaction, item, seller,
  buyer); \<open>throws k\<close> says whether the \<open>k\<close>-th of them throws. The values written to the
  two users are computed from the rows read at the start of the request; the new
  cancellation rate is the expression \<open>rate * deals / newDeals\<close>, a product and then a
  quotient of doubles.
\<close>

definition markReceived ::
  "(string \<Rightarrow> real \<Rightarrow> int \<Rightarrow> real \<Rightarrow> int) \<Rightarrow> (int \<Rightarrow> real \<Rightarrow> real \<Rightarrow> string list)
     \<Rightarrow> (nat \<Rightarrow> bool) \<Rightarrow> string option \<Rightarrow> string \<Rightarrow> bool \<Rightarrow> db
     \<Rightarrow> (failure + transaction) \<times> db" where
  "markReceived calculateTrustScore getEarnedBadges throws caller tid valid d =
     (case caller of
        None \<Rightarrow> (Inl unauthorized, d)
      | Some userId \<Rightarrow>
          if \<not> valid then (Inl validation_failed, d)
          else
     (case findUnique_include d tid of
        Absent \<Rightarrow> (Inl transaction_not_found, d)
      | Inconsistent \<Rightarrow> (Inl internal_server_error, d)
      | Found (t, seller, buyer, it) \<Rightarrow>
          if buyerId t \<noteq> userId
          then (Inl (403, ''Only the buyer can mark item as received''), d)
          else if status t \<noteq> PAID
          then (Inl (400, ''Cannot mark item as received for transaction in ''
                            @ status_name (status t) @ '' status. Must be PAID.''), d)
          else
     (case transaction_update (throws 0) d tid (\<lambda>r. r\<lparr>status := COMPLETED\<rparr>) of
        None \<Rightarrow> (Inl internal_server_error, d)
      | Some d1 \<Rightarrow>
     (case item_update (throws 1) d1 (itemId t) (\<lambda>r. r\<lparr>availabilityStatus := SOLD\<rparr>) of
        None \<Rightarrow> (Inl internal_server_error, d1)
      | Some d2 \<Rightarrow>
          let newCompletedDeals = completedDeals seller + 1;
              newCancellationRate =
                number_divide
                  (number_times (cancellationRate seller) (of_int (completedDeals seller)))
                  (of_int newCompletedDeals);
              newTrustScore =
                calculateTrustScore (verificationStatus seller) (avgRating seller)
                  newCompletedDeals newCancellationRate;
              newBadges =
                getEarnedBadges newCompletedDeals (avgRating seller) newCancellationRate
          in
     (case user_update (throws 2) d2 (sellerId t)
             (\<lambda>r. r\<lparr>completedDeals := newCompletedDeals,
                     cancellationRate := newCancellationRate,
                     trustScore := newTrustScore,
                     badges := newBadges\<rparr>) of
        None \<Rightarrow> (Inl internal_server_error, d2)
      | Some d3 \<Rightarrow>
     (case user_update (throws 3) d3 (buyerId t)
             (\<lambda>r. r\<lparr>completedDeals := completedDeals buyer + 1\<rparr>) of
        None \<Rightarrow> (Inl internal_server_error, d3)
      | Some d4 \<Rightarrow>
          (case transactions d1 tid of
             None \<Rightarrow> (Inl internal_server_error, d4)
           | Some t' \<Rightarrow> (Inr t', d4))))))))"

section \<open>New messages of a transaction\<close>

text \<open>
  \<open>GET /api/transactions/[id]/messages/new?after=<timestamp>\<close>. \<open>after\<close> is the parsed
  query parameter, \<open>None\<close> when it is missing or empty. The query filters on the
  transaction and, when \<open>after\<close> is given, on \<open>createdAt > after - 500\<close>; it orders by
  \<open>createdAt\<close> ascending and takes 50 rows. Rows with equal \<open>createdAt\<close> are kept in
  the order of the table.
\<close>

definition where_new :: "string \<Rightarrow> int option \<Rightarrow> message \<Rightarrow> bool" where
  "where_new tid after m \<longleftrightarrow>
     transactionId m = tid
     \<and> (case after of None \<Rightarrow> True | Some a \<Rightarrow> a - 500 < createdAt m)"

definition findMany_new :: "db \<Rightarrow> string \<Rightarrow> int option \<Rightarrow> message list" where
  "findMany_new d tid after =
     take 50 (sort_key createdAt (filter (where_new tid after) (messages d)))"

definition GET_new ::
  "string option \<Rightarrow> string \<Rightarrow> int option \<Rightarrow> db \<Rightarrow> failure + message list" where
  "GET_new caller tid after d =
     (case caller of
        None \<Rightarrow> Inl unauthorized
      | Some userId \<Rightarrow>
     (case transactions d tid of
        None \<Rightarrow> Inl transaction_not_found
      | Some t \<Rightarrow>
          if buyerId t \<noteq> userId \<and> sellerId t \<noteq> userId
          then Inl (403, ''You are not part of this transaction'')
          else Inr (findMany_new d tid after)))"

section \<open>The message notifier\<close>

text \<open>
  The client-side poller \<open>MessageNotifier\<close>. Its state is the object's fields; the ISO
  timestamps it keeps are modelled by their millisecond values. A listed transaction is
  what the poller reads of an element of the \<open>transactions\<close> array of the listing
  response: the id and the \<open>buyer\<close> and \<open>seller\<close> objects. The array is untyped JSON, so
  either object may be missing (\<open>None\<close>); reading a property of a missing object throws
  a \<open>TypeError\<close>, which the \<open>catch\<close> around the whole pass receives.
\<close>

record party =
  party_id :: string
  party_name :: string

record listed =
  listed_id :: string
  buyer :: "party option"
  seller :: "party option"

record toast =
  toast_title :: string
  toast_message :: string
  actionUrl :: string
  actionLabel :: string
  duration :: nat

record notifier =
  isRunning :: bool
  lastCheckTime :: "int option"
  currentUserId :: "string option"
  activeTransactionIds :: "string set"
  lastMessageTimestamps :: "string \<rightharpoonup> int"

text \<open>
  The outcome of a \<open>fetch\<close>: the promise rejects, the response is not \<open>ok\<close>, or it is
  \<open>ok\<close> with a body.
\<close>

datatype 'a fetched = Rejected | NotOk | Ok 'a

text \<open>
  \<open>this.lastMessageTimestamps.get(transaction.id) || this.lastCheckTime\<close>
\<close>

definition lastKnownTime :: "notifier \<Rightarrow> string \<Rightarrow> int option" where
  "lastKnownTime n tid =
     (case lastMessageTimestamps n tid of Some ts \<Rightarrow> Some ts | None \<Rightarrow> lastCheckTime n)"

text \<open>
  \<open>content.substring(0, 50) + (content.length > 50 ? "..." : "")\<close>; an element of the
  list stands for one code unit of the JavaScript string.
\<close>

definition preview :: "string \<Rightarrow> string" where
  "preview c = take 50 c @ (if 50 < length c then ''...'' else [])"

definition message_toast :: "string \<Rightarrow> string \<Rightarrow> string \<Rightarrow> toast" where
  "message_toast sender_name c tid =
     \<lparr>toast_title = ''New message from '' @ sender_name,
      toast_message = preview c,
      actionUrl = ''/chat/'' @ tid,
      actionLabel = ''View Chat'',
      duration = 6000\<rparr>"

text \<open>
  The request that the loop sends for a listed transaction: none when the transaction is
  in the set of active chats, otherwise the transaction id and the \<open>after\<close> parameter.
\<close>

definition requested :: "notifier \<Rightarrow> listed \<Rightarrow> (string \<times> int option) option" where
  "requested n t =
     (if listed_id t \<in> activeTransactionIds n then None
      else Some (listed_id t, lastKnownTime n (listed_id t)))"

text \<open>
  The body of the \<open>for\<close> loop of \<open>checkForNewMessages\<close> for one listed transaction:
  either the loop goes on, with the notifier and the toasts shown by this iteration, or
  an exception leaves the loop (a rejected \<open>fetch\<close>, or a property read on a missing
  \<open>buyer\<close> or \<open>seller\<close>), with the notifier as it is at that point.
\<close>

datatype step = Continue notifier "toast list" | Thrown notifier

definition check_transaction ::
  "(string \<Rightarrow> int option \<Rightarrow> message list fetched) \<Rightarrow> string \<Rightarrow> listed \<Rightarrow> notifier
     \<Rightarrow> step" where
  "check_transaction fetchNew userId t n =
     (case requested n t of
        None \<Rightarrow> Continue n []
      | Some (tid, after) \<Rightarrow>
     (case fetchNew tid after of
        Rejected \<Rightarrow> Thrown n
      | NotOk \<Rightarrow> Continue n []
      | Ok msgs \<Rightarrow>
          (case filter (\<lambda>msg. senderId msg \<noteq> userId) msgs of
             [] \<Rightarrow>
               (if msgs \<noteq> []
                then Continue
                       (n\<lparr>lastMessageTimestamps :=
                            (lastMessageTimestamps n)(tid \<mapsto> createdAt (last msgs))\<rparr>) []
                else Continue n [])
           | first # rest \<Rightarrow>
               (case buyer t of
                  None \<Rightarrow> Thrown n
                | Some b \<Rightarrow>
                    let sender = (if party_id b = senderId first then Some b else seller t);
                        n' = n\<lparr>lastMessageTimestamps :=
                                 (lastMessageTimestamps n)
                                   (tid \<mapsto> createdAt (last (first # rest)))\<rparr>
                    in (case sender of
                          None \<Rightarrow> Thrown n'
                        | Some p \<Rightarrow>
                            Continue n'
                              [message_toast (party_name p) (content first) tid])))))"

text \<open>
  The loop over the listing. The result is whether the loop reached the end of the list,
  the notifier, and the toasts shown, oldest first.
\<close>

fun check_transactions ::
  "(string \<Rightarrow> int option \<Rightarrow> message list fetched) \<Rightarrow> string \<Rightarrow> listed list
     \<Rightarrow> notifier \<Rightarrow> bool \<times> notifier \<times> toast list" where
  "check_transactions fetchNew userId [] n = (True, n, [])"
| "check_transactions fetchNew userId (t # ts) n =
     (case check_transaction fetchNew userId t n of
        Thrown n' \<Rightarrow> (False, n', [])
      | Continue n' shown \<Rightarrow>
          (case check_transactions fetchNew userId ts n' of
             (completed, n'', shown') \<Rightarrow> (completed, n'', shown @ shown')))"

text \<open>
  One pass of \<open>checkForNewMessages\<close>: \<open>hidden\<close> is \<open>document.hidden\<close>, \<open>token\<close> the
  stored token, \<open>listing\<close> the outcome of fetching the caller's transactions,
  \<open>fetchNew\<close> the outcome of fetching the new messages of a transaction, and \<open>now\<close> the
  clock reading at the end of the pass. The result is the notifier and the toasts shown.
\<close>

definition checkForNewMessages ::
  "bool \<Rightarrow> string option \<Rightarrow> listed list fetched
     \<Rightarrow> (string \<Rightarrow> int option \<Rightarrow> message list fetched) \<Rightarrow> int \<Rightarrow> notifier
     \<Rightarrow> notifier \<times> toast list" where
  "checkForNewMessages hidden token listing fetchNew now n =
     (case currentUserId n of
        None \<Rightarrow> (n, [])
      | Some userId \<Rightarrow>
          if hidden then (n, [])
          else
     (case token of
        None \<Rightarrow> (n, [])
      | Some tok \<Rightarrow>
     (case listing of
        Rejected \<Rightarrow> (n, [])
      | NotOk \<Rightarrow> (n, [])
      | Ok txs \<Rightarrow>
          (case check_transactions fetchNew userId txs n of
             (True, n', shown) \<Rightarrow> (n'\<lparr>lastCheckTime := Some now\<rparr>, shown)
           | (False, n', shown) \<Rightarrow> (n', shown)))))"

text \<open>
  The poller's message fetch against the server: the request carries the caller's
  token, which the server resolves to \<open>userId\<close>; an error status is a response that is
  not \<open>ok\<close>.
\<close>

definition server_fetchNew ::
  "db \<Rightarrow> string \<Rightarrow> string \<Rightarrow> int option \<Rightarrow> message list fetched" where
  "server_fetchNew d userId tid after =
     (case GET_new (Some userId) tid after d of
        Inl e \<Rightarrow> NotOk
      | Inr msgs \<Rightarrow> Ok msgs)"

text \<open>
  An element of the listing that \<open>GET /api/transactions\<close> returns for a transaction,
  as far as the poller reads it: the handler formats each transaction with the fields
  \<open>id\<close>, \<open>status\<close>, \<open>item\<close>, \<open>otherParty\<close>, \<open>latestMessage\<close>, \<open>role\<close> and others, and
  with no \<open>buyer\<close> or \<open>seller\<close> field.
\<close>

definition formattedTransaction :: "string \<Rightarrow> listed" where
  "formattedTransaction tid = \<lparr>listed_id = tid, buyer = None, seller = None\<rparr>"

section \<open>A scenario\<close>

text \<open>
  Buyer \<open>A\<close>, seller \<open>B\<close>, item \<open>I\<close> and one transaction \<open>T\<close> between them, in a
  given status (the seller's cancellation rate is the double written \<open>0.1\<close>); a trust engine to run the handlers with; and the length of the countdown
  window of a transaction, when it is set.
\<close>

definition countdown_length :: "transaction \<Rightarrow> int option" where
  "countdown_length t =
     (case (countdownStart t, countdownEnd t) of
        (Some s, Some e) \<Rightarrow> Some (e - s)
      | _ \<Rightarrow> None)"

definition alice :: user where
  "alice = \<lparr>name = ''Alice'', verificationStatus = ''VERIFIED'', avgRating = 4,
            completedDeals = 2, cancellationRate = 0, trustScore = 60, badges = []\<rparr>"

definition bob :: user where
  "bob = \<lparr>name = ''Bob'', verificationStatus = ''VERIFIED'', avgRating = 5,
          completedDeals = 3,
          cancellationRate = 3602879701896397 / 36028797018963968,
          trustScore = 70, badges = []\<rparr>"

definition deal :: "TransactionStatus \<Rightarrow> transaction" where
  "deal st = \<lparr>buyerId = ''A'', sellerId = ''B'', itemId = ''I'', status = st,
              escrowAmount = 100, paymentId = None, meetupLocation = None,
              countdownStart = None, countdownEnd = None\<rparr>"

definition lamp :: item where
  "lamp = \<lparr>availabilityStatus = AVAILABLE\<rparr>"

definition market :: "TransactionStatus \<Rightarrow> db" where
  "market st = \<lparr>transactions = [''T'' \<mapsto> deal st],
                items = [''I'' \<mapsto> lamp],
                users = [''A'' \<mapsto> alice, ''B'' \<mapsto> bob],
                messages = []\<rparr>"

definition score0 :: "string \<Rightarrow> real \<Rightarrow> int \<Rightarrow> real \<Rightarrow> int" where
  "score0 v r n c = min 100 (10 * n)"

definition badges0 :: "int \<Rightarrow> real \<Rightarrow> real \<Rightarrow> string list" where
  "badges0 n r c = (if 4 \<le> n then [''TRUSTED''] else [])"

definition no_write_throws :: "nat \<Rightarrow> bool" where
  "no_write_throws k = False"

definition item_write_throws :: "nat \<Rightarrow> bool" where
  "item_write_throws k = (k = 1)"

text \<open>
  The chat of transaction \<open>T\<close>: messages of \<open>A\<close> and \<open>B\<close>, a store holding them, the
  element of \<open>A\<close>'s listing for \<open>T\<close> with its buyer and seller, and \<open>A\<close>'s notifier
  with a given time of the last check, last-seen timestamps and active chats. The
  watermark of a transaction is the timestamp the notifier sends for it; a message is
  after the watermark when it was created strictly later.
\<close>

definition text_message :: "string \<Rightarrow> string \<Rightarrow> int \<Rightarrow> message" where
  "text_message who c ts =
     \<lparr>transactionId = ''T'', senderId = who, content = c, createdAt = ts, isAI = False\<rparr>"

definition chat :: "message list \<Rightarrow> db" where
  "chat ms = \<lparr>transactions = [''T'' \<mapsto> deal PAID], items = [''I'' \<mapsto> lamp],
              users = [''A'' \<mapsto> alice, ''B'' \<mapsto> bob], messages = ms\<rparr>"

definition burst :: "message list" where
  "burst = map (\<lambda>k. text_message ''B'' ''ping'' (1000 + int k)) [0..<51]"

definition listedT :: listed where
  "listedT = \<lparr>listed_id = ''T'',
              buyer = Some \<lparr>party_id = ''A'', party_name = ''Alice''\<rparr>,
              seller = Some \<lparr>party_id = ''B'', party_name = ''Bob''\<rparr>\<rparr>"

definition watcher :: "int \<Rightarrow> (string \<rightharpoonup> int) \<Rightarrow> string set \<Rightarrow> notifier" where
  "watcher checked seen active =
     \<lparr>isRunning = True, lastCheckTime = Some checked, currentUserId = Some ''A'',
      activeTransactionIds = active, lastMessageTimestamps = seen\<rparr>"

definition after_watermark :: "notifier \<Rightarrow> message \<Rightarrow> bool" where
  "after_watermark n m \<longleftrightarrow>
     (case lastKnownTime n (transactionId m) of None \<Rightarrow> True | Some w \<Rightarrow> w < createdAt m)"

definition hello_hi :: "message list" where
  "hello_hi = [text_message ''B'' ''hello'' 1000, text_message ''A'' ''hi'' 1200]"

section \<open>Properties of the state machine\<close>

lemma floor_log2:
  assumes "2 powr of_int k \<le> x" "x < 2 powr of_int (k + 1)"
  shows "\<lfloor>log 2 x\<rfloor> = k"
proof -
  have pos: "0 < x" using assms(1) by (rule less_le_trans [rotated]) simp
  have "of_int k \<le> log 2 x" using assms(1) pos by (simp add: le_log_iff)
  moreover have "log 2 x < of_int (k + 1)" using assms(2) pos by (simp add: log_less_iff)
  ultimately show ?thesis by (simp add: floor_eq_iff)
qed

lemma binary64_normal:
  assumes "2 powr of_int k \<le> \<bar>x\<bar>" "\<bar>x\<bar> < 2 powr of_int (k + 1)" "- 1022 \<le> k"
  shows "binary64 x
           = of_int (round_half_even (x / 2 powr of_int (k - 52))) * 2 powr of_int (k - 52)"
proof -
  have "x \<noteq> 0" using assms(1) by auto
  moreover have "\<lfloor>log 2 \<bar>x\<bar>\<rfloor> = k" using assms(1,2) by (rule floor_log2)
  moreover have "max (k - 52) (- 1074) = k - 52" using assms(3) by simp
  ultimately show ?thesis by (simp add: binary64_def)
qed

text \<open>
  The number written \<open>0.1\<close> is the double \<open>3602879701896397 / 2 ^ 55\<close>. Times 3 it is
  \<open>0.30000000000000004\<close> (a tie, rounded to the even significand), and that divided by
  4 is \<open>0.07500000000000001\<close>.
\<close>

lemma stored_rate_example:
  "is_double (3602879701896397 / 36028797018963968)"
  unfolding is_double_def
  using binary64_normal [where k = "- 4" and x = "3602879701896397 / 36028797018963968"]
  by (simp add: round_half_even_def powr_minus Let_def)

lemma decayed_rate_example:
  "number_divide (number_times (3602879701896397 / 36028797018963968) 3) 4
     = 5404319552844596 / 72057594037927936"
proof -
  have product: "number_times (3602879701896397 / 36028797018963968) 3
                   = 5404319552844596 / 18014398509481984"
    unfolding number_times_def
    using binary64_normal [where k = "- 2" and x = "3602879701896397 / 36028797018963968 * 3"]
    by (simp add: round_half_even_def powr_minus Let_def)
  show ?thesis
    unfolding product number_divide_def
    using binary64_normal [where k = "- 4" and x = "5404319552844596 / 18014398509481984 / 4"]
    by (simp add: round_half_even_def powr_minus Let_def)
qed

lemma market_simps:
  "transactions (market st) ''T'' = Some (deal st)"
  "users (market st) ''A'' = Some alice"
  "users (market st) ''B'' = Some bob"
  "items (market st) ''I'' = Some lamp"
  "buyerId (deal st) = ''A''" "sellerId (deal st) = ''B''" "itemId (deal st) = ''I''"
  "status (deal st) = st"
  by (simp_all add: market_def deal_def)

lemma findUnique_include_Found:
  "transactions d tid = Some t \<Longrightarrow> users d (sellerId t) = Some s
   \<Longrightarrow> users d (buyerId t) = Some b \<Longrightarrow> items d (itemId t) = Some i
   \<Longrightarrow> findUnique_include d tid = Found (t, s, b, i)"
  by (simp add: findUnique_include_def)

lemma pay_invalid:
  "transactions d tid = Some t \<Longrightarrow> status t \<noteq> ACCEPTED \<Longrightarrow>
   pay thr c1 c2 (Some (buyerId t)) (Some (tid, pid)) d
     = (Inl (400, ''Cannot pay for transaction in '' @ status_name (status t) @ '' status''), d)"
  by (simp add: pay_def)

lemma setMeetup_invalid:
  "transactions d tid = Some t \<Longrightarrow> u = buyerId t \<or> u = sellerId t \<Longrightarrow>
   status t \<noteq> REQUESTED \<Longrightarrow> status t \<noteq> ACCEPTED \<Longrightarrow>
   setMeetup thr (Some u) tid (Some loc) d
     = (Inl (400, ''Cannot set meetup location for transaction in ''
                    @ status_name (status t) @ '' status''), d)"
  by (auto simp add: setMeetup_def)

lemma confirmDelivery_invalid:
  "findUnique_include d tid = Found (t, s, b, i) \<Longrightarrow>
   status t \<noteq> PAID \<Longrightarrow> status t \<noteq> MEETING \<Longrightarrow>
   confirmDelivery thr (Some (sellerId t)) tid True d
     = (Inl (400, ''Cannot confirm delivery for transaction in '' @ status_name (status t)
                    @ '' status. Must be PAID or MEETING.''), d)"
  by (simp add: confirmDelivery_def)

lemma markPaid_invalid:
  "transactions d tid = Some t \<Longrightarrow> status t \<noteq> MEETING \<Longrightarrow>
   markPaid thr (Some (buyerId t)) tid True d
     = (Inl (400, ''Cannot mark payment for transaction in '' @ status_name (status t)
                    @ '' status. Must be MEETING.''), d)"
  by (simp add: markPaid_def)

lemma markReceived_invalid:
  "findUnique_include d tid = Found (t, s, b, i) \<Longrightarrow> status t \<noteq> PAID \<Longrightarrow>
   markReceived cts geb thrs (Some (buyerId t)) tid True d
     = (Inl (400, ''Cannot mark item as received for transaction in ''
                    @ status_name (status t) @ '' status. Must be PAID.''), d)"
  by (simp add: markReceived_def)

text \<open>
  C3. For each of pay, setMeetup, confirmDelivery, markPaid and markReceived, called by a
  caller with the role the operation asks for on a transaction whose status is not one
  the operation accepts: the answer is the 400 error whose message carries the name of
  the current status, and the store is unchanged.
\<close>

theorem invalid_state_rejected:
  assumes tx: "transactions d tid = Some t"
    and seller: "users d (sellerId t) = Some s"
    and buyer: "users d (buyerId t) = Some b"
    and it: "items d (itemId t) = Some i"
  shows
    "(status t \<noteq> ACCEPTED \<longrightarrow>
        pay thr c1 c2 (Some (buyerId t)) (Some (tid, pid)) d
          = (Inl (400, ''Cannot pay for transaction in '' @ status_name (status t)
                         @ '' status''), d))
   \<and> (status t \<notin> {REQUESTED, ACCEPTED} \<and> (u = buyerId t \<or> u = sellerId t) \<longrightarrow>
        setMeetup thr (Some u) tid (Some loc) d
          = (Inl (400, ''Cannot set meetup location for transaction in ''
                         @ status_name (status t) @ '' status''), d))
   \<and> (status t \<notin> {PAID, MEETING} \<longrightarrow>
        confirmDelivery thr (Some (sellerId t)) tid True d
          = (Inl (400, ''Cannot confirm delivery for transaction in ''
                         @ status_name (status t)
                         @ '' status. Must be PAID or MEETING.''), d))
   \<and> (status t \<noteq> MEETING \<longrightarrow>
        markPaid thr (Some (buyerId t)) tid True d
          = (Inl (400, ''Cannot mark payment for transaction in ''
                         @ status_name (status t) @ '' status. Must be MEETING.''), d))
   \<and> (status t \<noteq> PAID \<longrightarrow>
        markReceived cts geb thrs (Some (buyerId t)) tid True d
          = (Inl (400, ''Cannot mark item as received for transaction in ''
                         @ status_name (status t) @ '' status. Must be PAID.''), d))"
proof -
  note inc = findUnique_include_Found [OF tx seller buyer it]
  show ?thesis
    using pay_invalid [OF tx] setMeetup_invalid [OF tx] confirmDelivery_invalid [OF inc]
      markPaid_invalid [OF tx] markReceived_invalid [OF inc]
    by simp
qed

theorem invalid_state_rejected_witness:
  "pay False 0 0 (Some ''A'') (Some (''T'', ''pay_1'')) (market REQUESTED)
     = (Inl (400, ''Cannot pay for transaction in REQUESTED status''), market REQUESTED)
   \<and> setMeetup False (Some ''B'') ''T'' (Some ''Library'') (market PAID)
     = (Inl (400, ''Cannot set meetup location for transaction in PAID status''),
        market PAID)
   \<and> confirmDelivery False (Some ''B'') ''T'' True (market ACCEPTED)
     = (Inl (400, ''Cannot confirm delivery for transaction in ACCEPTED status. Must be PAID or MEETING.''),
        market ACCEPTED)
   \<and> markPaid False (Some ''A'') ''T'' True (market COMPLETED)
     = (Inl (400, ''Cannot mark payment for transaction in COMPLETED status. Must be MEETING.''),
        market COMPLETED)
   \<and> markReceived score0 badges0 no_write_throws (Some ''A'') ''T'' True (market REQUESTED)
     = (Inl (400, ''Cannot mark item as received for transaction in REQUESTED status. Must be PAID.''),
        market REQUESTED)"
  using
    invalid_state_rejected [where d = "market REQUESTED" and tid = "''T''" and t = "deal REQUESTED"
      and s = bob and b = alice and i = lamp and thr = False and ?c1.0 = 0 and ?c2.0 = 0
      and pid = "''pay_1''" and u = "''B''" and loc = "''Library''"
      and cts = score0 and geb = badges0 and thrs = no_write_throws]
    invalid_state_rejected [where d = "market PAID" and tid = "''T''" and t = "deal PAID"
      and s = bob and b = alice and i = lamp and thr = False and ?c1.0 = 0 and ?c2.0 = 0
      and pid = "''pay_1''" and u = "''B''" and loc = "''Library''"
      and cts = score0 and geb = badges0 and thrs = no_write_throws]
    invalid_state_rejected [where d = "market ACCEPTED" and tid = "''T''" and t = "deal ACCEPTED"
      and s = bob and b = alice and i = lamp and thr = False and ?c1.0 = 0 and ?c2.0 = 0
      and pid = "''pay_1''" and u = "''B''" and loc = "''Library''"
      and cts = score0 and geb = badges0 and thrs = no_write_throws]
    invalid_state_rejected [where d = "market COMPLETED" and tid = "''T''" and t = "deal COMPLETED"
      and s = bob and b = alice and i = lamp and thr = False and ?c1.0 = 0 and ?c2.0 = 0
      and pid = "''pay_1''" and u = "''B''" and loc = "''Library''"
      and cts = score0 and geb = badges0 and thrs = no_write_throws]
  by (simp add: market_simps)

text \<open>
  C2. When the buyer calls mark-received on a \<open>PAID\<close> transaction and none of the four
  writes throws, the request succeeds and afterwards the transaction is \<open>COMPLETED\<close>,
  the item is \<open>SOLD\<close>, the completed deals of the buyer and of the seller are one more
  than before, the seller's cancellation rate is the old rate times the old number of
  deals divided by the new number, in the handler's double-precision arithmetic
  (product first, each operation rounded to the nearest double), and the seller's trust
  score and badges are the trust engine's results on the new number of deals and the
  new rate. The seller's statistics are as the data model has them: a count from 0, and
  a rate that is a double between 0 and 1.
\<close>

theorem markReceived_effects:
  assumes tx: "transactions d tid = Some t"
    and seller: "users d (sellerId t) = Some s"
    and buyer: "users d (buyerId t) = Some b"
    and it: "items d (itemId t) = Some i"
    and paid: "status t = PAID"
    and ok: "\<forall>k < 4. \<not> throws k"
    and deals: "0 \<le> completedDeals s"
    and rate: "is_double (cancellationRate s)" "0 \<le> cancellationRate s"
      "cancellationRate s \<le> 1"
  shows "\<exists>d'. markReceived cts geb throws (Some (buyerId t)) tid True d
                 = (Inr (t\<lparr>status := COMPLETED\<rparr>), d')
     \<and> map_option status (transactions d' tid) = Some COMPLETED
     \<and> map_option availabilityStatus (items d' (itemId t)) = Some SOLD
     \<and> map_option completedDeals (users d' (buyerId t)) = Some (completedDeals b + 1)
     \<and> map_option completedDeals (users d' (sellerId t)) = Some (completedDeals s + 1)
     \<and> map_option cancellationRate (users d' (sellerId t))
         = Some (number_divide (number_times (cancellationRate s) (of_int (completedDeals s)))
                   (of_int (completedDeals s + 1)))
     \<and> map_option trustScore (users d' (sellerId t))
         = Some (cts (verificationStatus s) (avgRating s) (completedDeals s + 1)
                   (number_divide (number_times (cancellationRate s) (of_int (completedDeals s)))
                      (of_int (completedDeals s + 1))))
     \<and> map_option badges (users d' (sellerId t))
         = Some (geb (completedDeals s + 1) (avgRating s)
                   (number_divide (number_times (cancellationRate s) (of_int (completedDeals s)))
                      (of_int (completedDeals s + 1))))"
proof -
  have inc: "findUnique_include d tid = Found (t, s, b, i)"
    using tx seller buyer it by (rule findUnique_include_Found)
  have nothrow: "\<not> throws 0" "\<not> throws 1" "\<not> throws 2" "\<not> throws 3"
    using ok by simp_all
  show ?thesis
  proof (cases "buyerId t = sellerId t")
    case True
    then have "b = s" using seller buyer by simp
    then show ?thesis using True inc tx seller it paid nothrow
      by (simp add: markReceived_def transaction_update_def item_update_def user_update_def Let_def)
  next
    case False
    then show ?thesis using inc tx seller buyer it paid nothrow
      by (simp add: markReceived_def transaction_update_def item_update_def user_update_def Let_def)
  qed
qed


theorem markReceived_effects_witness:
  "\<exists>d'. markReceived score0 badges0 no_write_throws (Some ''A'') ''T'' True (market PAID)
           = (Inr ((deal PAID)\<lparr>status := COMPLETED\<rparr>), d')
     \<and> map_option status (transactions d' ''T'') = Some COMPLETED
     \<and> map_option availabilityStatus (items d' ''I'') = Some SOLD
     \<and> map_option completedDeals (users d' ''A'') = Some 3
     \<and> map_option completedDeals (users d' ''B'') = Some 4
     \<and> map_option cancellationRate (users d' ''B'')
         = Some (5404319552844596 / 72057594037927936)
     \<and> map_option trustScore (users d' ''B'') = Some 40
     \<and> map_option badges (users d' ''B'') = Some [''TRUSTED'']"
  using markReceived_effects [where d = "market PAID" and tid = "''T''" and t = "deal PAID"
      and s = bob and b = alice and i = lamp and throws = no_write_throws
      and cts = score0 and geb = badges0]
  by (simp add: market_simps no_write_throws_def alice_def bob_def score0_def badges0_def
      decayed_rate_example stored_rate_example)

text \<open>
  C5. confirmDelivery by the seller on a \<open>PAID\<close> transaction changes its status to
  \<open>MEETING\<close> and nothing else; on a transaction already in \<open>MEETING\<close> it succeeds and
  leaves the store as it was; so confirming twice from \<open>PAID\<close> gives the same answer and
  the same store as confirming once.
\<close>

theorem confirmDelivery_idempotent:
  assumes tx: "transactions d tid = Some t"
    and seller: "users d (sellerId t) = Some s"
    and buyer: "users d (buyerId t) = Some b"
    and it: "items d (itemId t) = Some i"
  shows
    "(status t = PAID \<longrightarrow>
        confirmDelivery False (Some (sellerId t)) tid True d
          = (Inr (t\<lparr>status := MEETING\<rparr>),
             d\<lparr>transactions := (transactions d)(tid \<mapsto> t\<lparr>status := MEETING\<rparr>)\<rparr>))
   \<and> (status t = MEETING \<longrightarrow>
        confirmDelivery False (Some (sellerId t)) tid True d = (Inr t, d))
   \<and> (status t = PAID \<longrightarrow>
        confirmDelivery False (Some (sellerId t)) tid True
            (snd (confirmDelivery False (Some (sellerId t)) tid True d))
          = confirmDelivery False (Some (sellerId t)) tid True d)"
proof -
  note inc = findUnique_include_Found [OF tx seller buyer it]
  have same: "d\<lparr>transactions := (transactions d)(tid \<mapsto> t)\<rparr> = d"
    using tx by (simp add: map_upd_triv)
  have from_paid: "confirmDelivery False (Some (sellerId t)) tid True d
          = (Inr (t\<lparr>status := MEETING\<rparr>),
             d\<lparr>transactions := (transactions d)(tid \<mapsto> t\<lparr>status := MEETING\<rparr>)\<rparr>)"
    if "status t = PAID"
    using that inc tx by (simp add: confirmDelivery_def transaction_update_def)
  have from_meeting: "confirmDelivery False (Some (sellerId t)) tid True d = (Inr t, d)"
    if "status t = MEETING"
    using that inc tx same by (simp add: confirmDelivery_def transaction_update_def)
  have twice: "confirmDelivery False (Some (sellerId t)) tid True
            (snd (confirmDelivery False (Some (sellerId t)) tid True d))
          = confirmDelivery False (Some (sellerId t)) tid True d"
    if paid: "status t = PAID"
  proof -
    let ?t' = "t\<lparr>status := MEETING\<rparr>"
    let ?d' = "d\<lparr>transactions := (transactions d)(tid \<mapsto> ?t')\<rparr>"
    have inc': "findUnique_include ?d' tid = Found (?t', s, b, i)"
      using seller buyer it by (simp add: findUnique_include_def)
    have same': "?d'\<lparr>transactions := (transactions ?d')(tid \<mapsto> ?t')\<rparr> = ?d'"
      by simp
    have "confirmDelivery False (Some (sellerId t)) tid True ?d' = (Inr ?t', ?d')"
      using inc' same' by (simp add: confirmDelivery_def transaction_update_def)
    then show ?thesis using from_paid [OF paid] by simp
  qed
  show ?thesis using from_paid from_meeting twice by blast
qed

theorem confirmDelivery_idempotent_witness:
  "confirmDelivery False (Some ''B'') ''T'' True (market PAID)
     = (Inr (deal MEETING), market MEETING)
   \<and> confirmDelivery False (Some ''B'') ''T'' True (market MEETING)
     = (Inr (deal MEETING), market MEETING)
   \<and> confirmDelivery False (Some ''B'') ''T'' True
        (snd (confirmDelivery False (Some ''B'') ''T'' True (market PAID)))
     = confirmDelivery False (Some ''B'') ''T'' True (market PAID)"
proof -
  have m: "(market PAID)\<lparr>transactions := (transactions (market PAID))(''T'' \<mapsto> deal MEETING)\<rparr> = market MEETING"
    by (simp add: market_def deal_def)
  have t: "(deal PAID)\<lparr>status := MEETING\<rparr> = deal MEETING"
    by (simp add: deal_def)
  show ?thesis
    using confirmDelivery_idempotent [where d = "market PAID" and tid = "''T''"
        and t = "deal PAID" and s = bob and b = alice and i = lamp]
      confirmDelivery_idempotent [where d = "market MEETING" and tid = "''T''"
        and t = "deal MEETING" and s = bob and b = alice and i = lamp]
    by (simp add: market_simps m t)
qed


lemma pay_succeeds_iff:
  assumes tx: "transactions d tid = Some t"
  shows "(\<exists>t'. fst (pay False c1 c2 (Some u) (Some (tid, pid)) d) = Inr t')
           \<longleftrightarrow> status t = ACCEPTED \<and> u = buyerId t"
  using tx by (auto simp add: pay_def transaction_update_def Let_def)

lemma pay_accepted:
  assumes tx: "transactions d tid = Some t" and acc: "status t = ACCEPTED"
  shows "pay False c1 c2 (Some (buyerId t)) (Some (tid, pid)) d
           = (Inr (t\<lparr>status := PAID, paymentId := Some pid, countdownStart := Some c1,
                      countdownEnd := Some (c2 + 86400000)\<rparr>),
              d\<lparr>transactions := (transactions d)(tid \<mapsto>
                   t\<lparr>status := PAID, paymentId := Some pid, countdownStart := Some c1,
                      countdownEnd := Some (c2 + 86400000)\<rparr>)\<rparr>)"
  using tx acc by (simp add: pay_def transaction_update_def MEETUP_TIMEOUT_HOURS_def Let_def)

lemma pay_countdown_length:
  assumes tx: "transactions d tid = Some t" and acc: "status t = ACCEPTED"
  shows "map_sum id countdown_length (fst (pay False c1 c2 (Some (buyerId t)) (Some (tid, pid)) d))
           = Inr (Some (86400000 + (c2 - c1)))"
  by (simp add: pay_accepted [OF tx acc] countdown_length_def)

text \<open>
  C4. pay by the buyer on an \<open>ACCEPTED\<close> transaction whose handler reads the clock at
  1000 ms for \<open>countdownStart\<close> and at 1001 ms for \<open>countdownEnd\<close>: the request succeeds,
  the status is \<open>PAID\<close> and the payment id is stored, and \<open>countdownEnd\<close> minus
  \<open>countdownStart\<close> is 86400001 ms, one millisecond more than 24 hours. In general the
  window is 24 hours plus the time between the two readings (\<open>pay_countdown_length\<close>),
  and pay succeeds exactly for the buyer of an \<open>ACCEPTED\<close> transaction
  (\<open>pay_succeeds_iff\<close>).
\<close>

theorem pay_countdown_clock_tick:
  "fst (pay False 1000 1001 (Some ''A'') (Some (''T'', ''pay_1'')) (market ACCEPTED))
     = Inr ((deal ACCEPTED)\<lparr>status := PAID, paymentId := Some ''pay_1'',
              countdownStart := Some 1000, countdownEnd := Some 86401001\<rparr>)
   \<and> map_sum id countdown_length
        (fst (pay False 1000 1001 (Some ''A'') (Some (''T'', ''pay_1'')) (market ACCEPTED)))
     = Inr (Some 86400001)
   \<and> (86400001 :: int) \<noteq> 24 * 60 * 60 * 1000"
  using pay_accepted [where d = "market ACCEPTED" and tid = "''T''" and t = "deal ACCEPTED"
      and ?c1.0 = 1000 and ?c2.0 = 1001 and pid = "''pay_1''"]
  by (simp add: market_simps countdown_length_def)

text \<open>
  C1 (as amended). When the buyer calls mark-received on a \<open>PAID\<close> transaction, the handler
  applies four writes in this order: the transaction becomes \<open>COMPLETED\<close>; the item
  becomes \<open>SOLD\<close>; the seller's completed deals, cancellation rate, trust score and
  badges are written together; the buyer's completed deals are written. If none throws,
  the request succeeds with all six effects in the store. If the \<open>k\<close>-th write is the
  first to throw, the answer is the 500 error and the store holds the effects of the
  writes before it: nothing is rolled back.
\<close>

theorem markReceived_writes_in_order:
  assumes tx: "transactions d tid = Some t"
    and seller: "users d (sellerId t) = Some s"
    and buyer: "users d (buyerId t) = Some b"
    and it: "items d (itemId t) = Some i"
    and paid: "status t = PAID"
  shows "markReceived cts geb throws (Some (buyerId t)) tid True d =
    (let rate = number_divide (number_times (cancellationRate s) (of_int (completedDeals s)))
                  (of_int (completedDeals s + 1));
         s' = s\<lparr>completedDeals := completedDeals s + 1,
                cancellationRate := rate,
                trustScore := cts (verificationStatus s) (avgRating s) (completedDeals s + 1) rate,
                badges := geb (completedDeals s + 1) (avgRating s) rate\<rparr>;
         b' = (if buyerId t = sellerId t then s' else b)
                \<lparr>completedDeals := completedDeals b + 1\<rparr>;
         d1 = d\<lparr>transactions := (transactions d)(tid \<mapsto> t\<lparr>status := COMPLETED\<rparr>)\<rparr>;
         d2 = d1\<lparr>items := (items d)(itemId t \<mapsto> i\<lparr>availabilityStatus := SOLD\<rparr>)\<rparr>;
         d3 = d2\<lparr>users := (users d)(sellerId t \<mapsto> s')\<rparr>;
         d4 = d3\<lparr>users := (users d)(sellerId t \<mapsto> s', buyerId t \<mapsto> b')\<rparr>
     in if throws 0 then (Inl internal_server_error, d)
        else if throws 1 then (Inl internal_server_error, d1)
        else if throws 2 then (Inl internal_server_error, d2)
        else if throws 3 then (Inl internal_server_error, d3)
        else (Inr (t\<lparr>status := COMPLETED\<rparr>), d4))"
proof -
  note inc = findUnique_include_Found [OF tx seller buyer it]
  show ?thesis
    using inc tx seller buyer it paid
    by (simp add: markReceived_def transaction_update_def item_update_def user_update_def
        Let_def)
qed


theorem markReceived_writes_in_order_witness:
  "markReceived score0 badges0 item_write_throws (Some ''A'') ''T'' True (market PAID)
     = (Inl internal_server_error,
        (market PAID)\<lparr>transactions := [''T'' \<mapsto> deal COMPLETED]\<rparr>)"
proof -
  have t: "(deal PAID)\<lparr>status := COMPLETED\<rparr> = deal COMPLETED"
    by (simp add: deal_def)
  have m: "(transactions (market PAID))(''T'' \<mapsto> deal COMPLETED) = [''T'' \<mapsto> deal COMPLETED]"
    by (simp add: market_def)
  show ?thesis
    using markReceived_writes_in_order [where d = "market PAID" and tid = "''T''"
        and t = "deal PAID" and s = bob and b = alice and i = lamp
        and throws = item_write_throws and cts = score0 and geb = badges0]
    by (simp add: market_simps item_write_throws_def Let_def t m)
qed

text \<open>
  C1 as stated fails: when the item write throws, the request fails and the stored
  transaction is \<open>COMPLETED\<close> (it was \<open>PAID\<close>) while the item is still \<open>AVAILABLE\<close>.
\<close>

theorem markReceived_no_rollback:
  "fst (markReceived score0 badges0 item_write_throws (Some ''A'') ''T'' True (market PAID))
     = Inl internal_server_error
   \<and> map_option status
        (transactions
           (snd (markReceived score0 badges0 item_write_throws (Some ''A'') ''T'' True
                   (market PAID))) ''T'')
     = Some COMPLETED
   \<and> map_option availabilityStatus
        (items
           (snd (markReceived score0 badges0 item_write_throws (Some ''A'') ''T'' True
                   (market PAID))) ''I'')
     = Some AVAILABLE
   \<and> map_option status (transactions (market PAID) ''T'') = Some PAID"
proof -
  have inc: "findUnique_include (market PAID) ''T'' = Found (deal PAID, bob, alice, lamp)"
    by (rule findUnique_include_Found) (simp_all add: market_simps)
  have run: "markReceived score0 badges0 item_write_throws (Some ''A'') ''T'' True (market PAID)
     = (Inl internal_server_error,
        (market PAID)\<lparr>transactions :=
           (transactions (market PAID))(''T'' \<mapsto> (deal PAID)\<lparr>status := COMPLETED\<rparr>)\<rparr>)"
    by (simp add: markReceived_def inc market_simps transaction_update_def item_update_def
        item_write_throws_def)
  show ?thesis unfolding run by (simp add: market_simps lamp_def)
qed

section \<open>Properties of the new-messages endpoint and of the notifier\<close>

lemma sorted_take_drop_le:
  assumes "sorted (map f xs)" "x \<in> set (take k xs)" "y \<in> set (drop k xs)"
  shows "f x \<le> f y"
proof -
  have "sorted (map f (take k xs) @ map f (drop k xs))"
    using assms(1) by (simp flip: map_append)
  then show ?thesis using assms(2,3) by (auto simp add: sorted_append)
qed

text \<open>
  C10. A party to the transaction who asks for its new messages gets at most 50 messages,
  in ascending order of \<open>createdAt\<close>: the first 50 of the matching messages in that
  order. When more than 50 match, exactly 50 are returned, and every message left out is
  at least as new as every message returned; the returned and the omitted messages
  together are the matching ones.
\<close>

theorem GET_new_oldest_50:
  assumes tx: "transactions d tid = Some t"
    and party: "u = buyerId t \<or> u = sellerId t"
  shows "\<exists>ms. GET_new (Some u) tid after d = Inr ms
     \<and> length ms \<le> 50
     \<and> sorted (map createdAt ms)
     \<and> ms = take 50 (sort_key createdAt (filter (where_new tid after) (messages d)))
     \<and> mset (ms @ drop 50 (sort_key createdAt (filter (where_new tid after) (messages d))))
         = mset (filter (where_new tid after) (messages d))
     \<and> (50 < length (filter (where_new tid after) (messages d)) \<longrightarrow> length ms = 50)
     \<and> (\<forall>m \<in> set ms.
          \<forall>m' \<in> set (drop 50 (sort_key createdAt (filter (where_new tid after) (messages d)))).
            createdAt m \<le> createdAt m')"
proof -
  let ?match = "filter (where_new tid after) (messages d)"
  let ?all = "sort_key createdAt ?match"
  have run: "GET_new (Some u) tid after d = Inr (take 50 ?all)"
    using tx party by (auto simp add: GET_new_def findMany_new_def)
  have srt: "sorted (map createdAt ?all)" by (rule sorted_sort_key)
  have len: "length (take 50 ?all) \<le> 50" by simp
  have srt50: "sorted (map createdAt (take 50 ?all))"
    using srt by (simp add: take_map [symmetric] sorted_wrt_take)
  have "mset (take 50 ?all @ drop 50 ?all) = mset ?all"
    by (simp only: append_take_drop_id)
  then have all: "mset (take 50 ?all @ drop 50 ?all) = mset ?match"
    by (simp only: mset_sort)
  have full: "50 < length ?match \<longrightarrow> length (take 50 ?all) = 50"
    by simp
  have older: "\<forall>m \<in> set (take 50 ?all). \<forall>m' \<in> set (drop 50 ?all). createdAt m \<le> createdAt m'"
    using sorted_take_drop_le [OF srt] by blast
  show ?thesis
    by (rule exI [of _ "take 50 ?all"]) (intro conjI run len srt50 refl all full older)
qed

lemma check_transaction_suppressed:
  "listed_id t \<in> activeTransactionIds n \<Longrightarrow> check_transaction f u t n = Continue n []"
  by (simp add: check_transaction_def requested_def)

lemma check_transaction_Continue:
  assumes "check_transaction f u t n = Continue n' out"
  shows "activeTransactionIds n' = activeTransactionIds n"
    and "lastCheckTime n' = lastCheckTime n"
    and "k \<noteq> listed_id t \<Longrightarrow> lastMessageTimestamps n' k = lastMessageTimestamps n k"
    and "x \<in> set out \<Longrightarrow> actionUrl x = ''/chat/'' @ listed_id t"
    and "x \<in> set out \<Longrightarrow> listed_id t \<notin> activeTransactionIds n"
  using assms
  by (auto simp add: check_transaction_def requested_def message_toast_def Let_def
      split: if_splits fetched.splits list.splits option.splits)

lemma check_transactions_toasts:
  "x \<in> set (snd (snd (check_transactions f u ts n))) \<Longrightarrow>
   \<exists>t \<in> set ts. actionUrl x = ''/chat/'' @ listed_id t \<and> listed_id t \<notin> activeTransactionIds n"
proof (induction ts arbitrary: n)
  case Nil
  then show ?case by simp
next
  case (Cons h ts)
  show ?case
  proof (cases "check_transaction f u h n")
    case (Thrown n')
    then show ?thesis using Cons.prems by simp
  next
    case (Continue n' out)
    obtain c nf out' where rec: "check_transactions f u ts n' = (c, nf, out')"
      by (cases "check_transactions f u ts n'") auto
    from Cons.prems Continue rec have "x \<in> set out \<or> x \<in> set out'" by auto
    then show ?thesis
    proof
      assume "x \<in> set out"
      then show ?thesis using check_transaction_Continue(4,5) [OF Continue] by auto
    next
      assume "x \<in> set out'"
      then have "x \<in> set (snd (snd (check_transactions f u ts n')))" using rec by simp
      from Cons.IH [OF this] show ?thesis
        using check_transaction_Continue(1) [OF Continue] by auto
    qed
  qed
qed

lemma checkForNewMessages_run:
  assumes "currentUserId n = Some u" "\<not> hidden" "token = Some tok" "listing = Ok txs"
    and "check_transactions fetchNew u txs n = (c, n', shown)"
  shows "checkForNewMessages hidden token listing fetchNew now n
           = (if c then n'\<lparr>lastCheckTime := Some now\<rparr> else n', shown)"
  using assms by (simp add: checkForNewMessages_def)

lemma checkForNewMessages_toasts:
  "snd (checkForNewMessages hidden token listing fetchNew now n) = []
   \<or> (\<exists>u txs. snd (checkForNewMessages hidden token listing fetchNew now n)
                   = snd (snd (check_transactions fetchNew u txs n)))"
proof (cases "\<exists>u tok txs. currentUserId n = Some u \<and> \<not> hidden \<and> token = Some tok \<and> listing = Ok txs")
  case True
  then obtain u tok txs where h: "currentUserId n = Some u" "\<not> hidden" "token = Some tok"
      "listing = Ok txs" by blast
  obtain c n' shown where r: "check_transactions fetchNew u txs n = (c, n', shown)"
    by (cases "check_transactions fetchNew u txs n") auto
  have "snd (checkForNewMessages hidden token listing fetchNew now n)
          = snd (snd (check_transactions fetchNew u txs n))"
    by (simp add: checkForNewMessages_run [OF h r] r)
  then show ?thesis by blast
next
  case False
  then have "snd (checkForNewMessages hidden token listing fetchNew now n) = []"
    by (auto simp add: checkForNewMessages_def split: option.splits fetched.splits)
  then show ?thesis by simp
qed

text \<open>
  C9. In one pass of the poller, no toast is shown whose link is the chat of a
  transaction that is in the set of active chats, whatever the listing and the fetches
  return.
\<close>

theorem suppressed_transaction_no_toast:
  assumes "tid \<in> activeTransactionIds n"
  shows "''/chat/'' @ tid
           \<notin> actionUrl ` set (snd (checkForNewMessages hidden token listing fetchNew now n))"
proof
  assume "''/chat/'' @ tid
           \<in> actionUrl ` set (snd (checkForNewMessages hidden token listing fetchNew now n))"
  then obtain x where x: "x \<in> set (snd (checkForNewMessages hidden token listing fetchNew now n))"
    and url: "actionUrl x = ''/chat/'' @ tid" by auto
  from x checkForNewMessages_toasts [of hidden token listing fetchNew now n]
  obtain u txs where "x \<in> set (snd (snd (check_transactions fetchNew u txs n)))"
    by auto
  from check_transactions_toasts [OF this] url assms show False by auto
qed

lemma chat_simps:
  "transactions (chat ms) ''T'' = Some (deal PAID)"
  "messages (chat ms) = ms"
  by (simp_all add: chat_def)

lemma GET_new_chat:
  "GET_new (Some ''A'') ''T'' after (chat ms)
     = Inr (take 50 (sort_key createdAt (filter (where_new ''T'' after) ms)))"
  by (simp add: GET_new_def findMany_new_def chat_simps market_simps)

theorem suppressed_transaction_no_toast_witness:
  "''T'' \<in> activeTransactionIds (watcher 900 Map.empty {''T''})
   \<and> ''/chat/T'' \<notin> actionUrl ` set (snd (checkForNewMessages False (Some ''token'')
         (Ok [listedT]) (server_fetchNew (chat [text_message ''B'' ''hello'' 1000]) ''A'')
         1100 (watcher 900 Map.empty {''T''})))"
  using suppressed_transaction_no_toast [where tid = "''T''"
      and n = "watcher 900 Map.empty {''T''}" and hidden = False and token = "Some ''token''"
      and listing = "Ok [listedT]"
      and fetchNew = "server_fetchNew (chat [text_message ''B'' ''hello'' 1000]) ''A''"
      and now = 1100]
  by (simp add: watcher_def)

theorem GET_new_oldest_50_witness:
  "length (filter (where_new ''T'' (Some 900)) (messages (chat burst))) = 51
   \<and> (\<exists>ms. GET_new (Some ''A'') ''T'' (Some 900) (chat burst) = Inr ms
         \<and> length ms = 50 \<and> sorted (map createdAt ms))"
proof -
  have all: "filter (where_new ''T'' (Some 900)) burst = burst"
    by (rule filter_True) (auto simp add: burst_def where_new_def text_message_def)
  have len: "length burst = 51" by (simp add: burst_def)
  show ?thesis
    using GET_new_oldest_50 [where d = "chat burst" and tid = "''T''" and t = "deal PAID"
        and u = "''A''" and after = "Some 900"]
    by (auto simp add: chat_simps market_simps all len)
qed

lemma check_transactions_other:
  assumes "check_transactions f u ts n = (c, nf, out)"
    and "tid \<notin> listed_id ` set ts"
  shows "lastMessageTimestamps nf tid = lastMessageTimestamps n tid
     \<and> filter (\<lambda>x. actionUrl x = ''/chat/'' @ tid) out = []"
  using assms
proof (induction ts arbitrary: n c nf out)
  case Nil
  then show ?case by simp
next
  case (Cons h ts)
  from Cons.prems(2) have h: "tid \<noteq> listed_id h" and rest: "tid \<notin> listed_id ` set ts"
    by auto
  show ?case
  proof (cases "check_transaction f u h n")
    case (Thrown n')
    then have "nf = n'" "out = []" using Cons.prems(1) by auto
    moreover have "lastMessageTimestamps n' tid = lastMessageTimestamps n tid"
      using Thrown h
      by (auto simp add: check_transaction_def requested_def Let_def
          split: if_splits fetched.splits list.splits option.splits)
    ultimately show ?thesis by simp
  next
    case (Continue n' shown)
    obtain c' nf' out' where rec: "check_transactions f u ts n' = (c', nf', out')"
      by (cases "check_transactions f u ts n'") auto
    from Cons.prems(1) Continue rec have eq: "nf = nf'" "out = shown @ out'" by auto
    from Cons.IH [OF rec rest]
    have ih: "lastMessageTimestamps nf' tid = lastMessageTimestamps n' tid"
      "filter (\<lambda>x. actionUrl x = ''/chat/'' @ tid) out' = []" by auto
    have "filter (\<lambda>x. actionUrl x = ''/chat/'' @ tid) shown = []"
      using check_transaction_Continue(4) [OF Continue] h by (auto simp add: filter_empty_conv)
    then show ?thesis
      using eq ih check_transaction_Continue(3) [OF Continue h] by simp
  qed
qed

lemma check_transactions_at:
  assumes "check_transactions f u ts n = (True, nf, out)"
    and "distinct (map listed_id ts)"
    and "t \<in> set ts"
  shows "\<exists>n0 n1 shown.
           activeTransactionIds n0 = activeTransactionIds n
         \<and> lastCheckTime n0 = lastCheckTime n
         \<and> lastMessageTimestamps n0 (listed_id t) = lastMessageTimestamps n (listed_id t)
         \<and> check_transaction f u t n0 = Continue n1 shown
         \<and> lastMessageTimestamps nf (listed_id t) = lastMessageTimestamps n1 (listed_id t)
         \<and> filter (\<lambda>x. actionUrl x = ''/chat/'' @ listed_id t) out = shown"
  using assms
proof (induction ts arbitrary: n nf out)
  case Nil
  then show ?case by simp
next
  case (Cons h ts)
  from Cons.prems(1) obtain n' shown where step: "check_transaction f u h n = Continue n' shown"
    by (cases "check_transaction f u h n") auto
  obtain c' nf' out' where rec: "check_transactions f u ts n' = (c', nf', out')"
    by (cases "check_transactions f u ts n'") auto
  from Cons.prems(1) step rec have eq: "c' = True" "nf = nf'" "out = shown @ out'" by auto
  from Cons.prems(2) have fresh: "listed_id h \<notin> listed_id ` set ts"
    and dist: "distinct (map listed_id ts)" by auto
  show ?case
  proof (cases "t = h")
    case True
    from check_transactions_other [OF rec fresh]
    have "lastMessageTimestamps nf' (listed_id h) = lastMessageTimestamps n' (listed_id h)"
      "filter (\<lambda>x. actionUrl x = ''/chat/'' @ listed_id h) out' = []" by auto
    moreover have "filter (\<lambda>x. actionUrl x = ''/chat/'' @ listed_id h) shown = shown"
      using check_transaction_Continue(4) [OF step] by (auto simp add: filter_id_conv)
    ultimately show ?thesis using True step eq by auto
  next
    case False
    then have mem: "t \<in> set ts" using Cons.prems(3) by simp
    then have other: "listed_id t \<noteq> listed_id h" using fresh by (metis imageI)
    from Cons.IH [OF rec [unfolded eq(1)] dist mem]
    obtain n0 n1 shown' where ih:
      "activeTransactionIds n0 = activeTransactionIds n'"
      "lastCheckTime n0 = lastCheckTime n'"
      "lastMessageTimestamps n0 (listed_id t) = lastMessageTimestamps n' (listed_id t)"
      "check_transaction f u t n0 = Continue n1 shown'"
      "lastMessageTimestamps nf' (listed_id t) = lastMessageTimestamps n1 (listed_id t)"
      "filter (\<lambda>x. actionUrl x = ''/chat/'' @ listed_id t) out' = shown'" by blast
    have "filter (\<lambda>x. actionUrl x = ''/chat/'' @ listed_id t) shown = []"
      using check_transaction_Continue(4) [OF step] other by (auto simp add: filter_empty_conv)
    then show ?thesis
      using ih eq check_transaction_Continue(1,2) [OF step]
        check_transaction_Continue(3) [OF step other]
      by (intro exI [of _ n0] exI [of _ n1] exI [of _ shown']) simp
  qed
qed

lemma sorted_last_Max:
  assumes "sorted (map f xs)" "xs \<noteq> []"
  shows "f (last xs) = Max (f ` set xs)"
  using assms
proof (induction xs)
  case Nil
  then show ?case by simp
next
  case (Cons x xs)
  show ?case
  proof (cases "xs = []")
    case True
    then show ?thesis by simp
  next
    case False
    with Cons have ih: "f (last xs) = Max (f ` set xs)" by simp
    have "f x \<le> f (last xs)" using Cons.prems(1) False by simp
    then have "max (f x) (Max (f ` set xs)) = Max (f ` set xs)" using ih by simp
    then show ?thesis using False ih by simp
  qed
qed

lemma lastKnownTime_cong:
  "lastCheckTime n0 = lastCheckTime n \<Longrightarrow>
   lastMessageTimestamps n0 tid = lastMessageTimestamps n tid \<Longrightarrow>
   lastKnownTime n0 tid = lastKnownTime n tid"
  by (simp add: lastKnownTime_def split: option.splits)

lemma check_transaction_own_only:
  assumes "listed_id t \<notin> activeTransactionIds n0"
    and "f (listed_id t) (lastKnownTime n0 (listed_id t)) = Ok msgs"
    and "filter (\<lambda>m. senderId m \<noteq> u) msgs = []" and "msgs \<noteq> []"
  shows "check_transaction f u t n0
           = Continue (n0\<lparr>lastMessageTimestamps :=
                 (lastMessageTimestamps n0)(listed_id t \<mapsto> createdAt (last msgs))\<rparr>) []"
  using assms by (simp add: check_transaction_def requested_def)

text \<open>
  When every message fetched for a listed transaction is the caller's own, the pass
  advances the last-seen timestamp of the transaction to that of the newest fetched
  message.
\<close>

lemma lastSeen_own_messages:
  assumes user: "currentUserId n = Some u" and visible: "\<not> hidden"
    and token: "token = Some tok" and listing: "listing = Ok txs"
    and dist: "distinct (map listed_id txs)" and mem: "t \<in> set txs"
    and shown: "listed_id t \<notin> activeTransactionIds n"
    and fetch: "fetchNew (listed_id t) (lastKnownTime n (listed_id t)) = Ok msgs"
    and some: "msgs \<noteq> []" and srt: "sorted (map createdAt msgs)"
    and own: "filter (\<lambda>m. senderId m \<noteq> u) msgs = []"
    and completed: "fst (check_transactions fetchNew u txs n)"
  shows "lastMessageTimestamps (fst (checkForNewMessages hidden token listing fetchNew now n))
           (listed_id t)
         = Some (Max (createdAt ` set msgs))"
proof -
  obtain nf out where run: "check_transactions fetchNew u txs n = (True, nf, out)"
    using completed by (cases "check_transactions fetchNew u txs n") auto
  have tick: "checkForNewMessages hidden token listing fetchNew now n
                = (nf\<lparr>lastCheckTime := Some now\<rparr>, out)"
    using checkForNewMessages_run [OF user visible token listing run] by simp
  from check_transactions_at [OF run dist mem]
  obtain n0 n1 sh where at:
    "activeTransactionIds n0 = activeTransactionIds n"
    "lastCheckTime n0 = lastCheckTime n"
    "lastMessageTimestamps n0 (listed_id t) = lastMessageTimestamps n (listed_id t)"
    "check_transaction fetchNew u t n0 = Continue n1 sh"
    "lastMessageTimestamps nf (listed_id t) = lastMessageTimestamps n1 (listed_id t)"
    by blast
  have shown0: "listed_id t \<notin> activeTransactionIds n0" using shown at(1) by simp
  have fetch0: "fetchNew (listed_id t) (lastKnownTime n0 (listed_id t)) = Ok msgs"
    using fetch lastKnownTime_cong [OF at(2,3)] by simp
  from check_transaction_own_only [where f = fetchNew and t = t, OF shown0 fetch0 own some] at(4)
  have "lastMessageTimestamps n1 (listed_id t) = Some (createdAt (last msgs))" by auto
  then show ?thesis using tick at(5) sorted_last_Max [OF srt some] by simp
qed

lemma server_fetchNew_chat:
  "server_fetchNew (chat ms) ''A'' ''T'' after
     = Ok (take 50 (sort_key createdAt (filter (where_new ''T'' after) ms)))"
  by (simp add: server_fetchNew_def GET_new_chat)

text \<open>
  An element of the listing as \<open>GET /api/transactions\<close> formats it has no \<open>buyer\<close>
  object. When the fetch for such an element returns a message of the counterpart, the
  read of \<open>transaction.buyer.id\<close> throws: the loop ends there, without a toast and
  without a new last-seen timestamp, and the time of the last check is not advanced.
\<close>

lemma server_listing_throws:
  assumes "tid \<notin> activeTransactionIds n"
    and "fetchNew tid (lastKnownTime n tid) = Ok msgs"
    and "filter (\<lambda>m. senderId m \<noteq> u) msgs \<noteq> []"
  shows "check_transaction fetchNew u (formattedTransaction tid) n = Thrown n"
    and "check_transactions fetchNew u (formattedTransaction tid # rest) n = (False, n, [])"
proof -
  show "check_transaction fetchNew u (formattedTransaction tid) n = Thrown n"
    using assms
    by (cases "filter (\<lambda>m. senderId m \<noteq> u) msgs")
      (simp_all add: check_transaction_def requested_def formattedTransaction_def)
  then show "check_transactions fetchNew u (formattedTransaction tid # rest) n = (False, n, [])"
    by simp
qed

text \<open>
  C6. A pass of \<open>A\<close>'s poller over the listing that the server returns for \<open>A\<close>, where
  the chat of \<open>T\<close> holds a message of the counterpart \<open>B\<close> at 1000 and a message of \<open>A\<close>
  at 1200: both messages are fetched, and after the pass the notifier is unchanged, so
  the last-seen timestamp of \<open>T\<close> is still unset and not 1200, the timestamp of the
  newest fetched message.
\<close>

theorem lastSeen_not_advanced:
  "GET_new (Some ''A'') ''T'' (lastKnownTime (watcher 900 Map.empty {}) ''T'') (chat hello_hi)
     = Inr [text_message ''B'' ''hello'' 1000, text_message ''A'' ''hi'' 1200]
   \<and> checkForNewMessages False (Some ''token'') (Ok [formattedTransaction ''T''])
        (server_fetchNew (chat hello_hi) ''A'') 1300 (watcher 900 Map.empty {})
     = (watcher 900 Map.empty {}, [])
   \<and> lastMessageTimestamps
        (fst (checkForNewMessages False (Some ''token'') (Ok [formattedTransaction ''T''])
                (server_fetchNew (chat hello_hi) ''A'') 1300 (watcher 900 Map.empty {}))) ''T''
     = None"
proof -
  have fetched: "server_fetchNew (chat hello_hi) ''A'' ''T''
                   (lastKnownTime (watcher 900 Map.empty {}) ''T'')
        = Ok [text_message ''B'' ''hello'' 1000, text_message ''A'' ''hi'' 1200]"
    by (simp add: server_fetchNew_chat lastKnownTime_def watcher_def where_new_def
        text_message_def hello_hi_def)
  have loop: "check_transactions (server_fetchNew (chat hello_hi) ''A'') ''A''
                [formattedTransaction ''T''] (watcher 900 Map.empty {})
        = (False, watcher 900 Map.empty {}, [])"
    by (rule server_listing_throws(2)
          [where fetchNew = "server_fetchNew (chat hello_hi) ''A''" and tid = "''T''"
             and n = "watcher 900 Map.empty {}" and u = "''A''", OF _ fetched])
      (simp_all add: watcher_def text_message_def)
  have pass: "checkForNewMessages False (Some ''token'') (Ok [formattedTransaction ''T''])
        (server_fetchNew (chat hello_hi) ''A'') 1300 (watcher 900 Map.empty {})
     = (watcher 900 Map.empty {}, [])"
    using checkForNewMessages_run [where n = "watcher 900 Map.empty {}" and u = "''A''"
        and hidden = False and token = "Some ''token''" and tok = "''token''"
        and listing = "Ok [formattedTransaction ''T'']" and txs = "[formattedTransaction ''T'']",
        OF _ _ _ _ loop]
    by (simp add: watcher_def)
  show ?thesis
    unfolding pass
    by (simp add: GET_new_chat lastKnownTime_def where_new_def text_message_def hello_hi_def)
      (simp add: watcher_def)
qed

text \<open>
  C8. A pass of \<open>A\<close>'s poller over the listing that the server returns for \<open>A\<close>, where
  the chat of \<open>T\<close> holds one message, written by the counterpart \<open>B\<close> after the
  watermark: the message is fetched and the pass shows no toast at all.
\<close>

theorem no_toast_on_listing:
  "after_watermark (watcher 900 Map.empty {}) (text_message ''B'' ''first'' 1000)
   \<and> GET_new (Some ''A'') ''T'' (lastKnownTime (watcher 900 Map.empty {}) ''T'')
        (chat [text_message ''B'' ''first'' 1000])
     = Inr [text_message ''B'' ''first'' 1000]
   \<and> snd (checkForNewMessages False (Some ''token'') (Ok [formattedTransaction ''T''])
             (server_fetchNew (chat [text_message ''B'' ''first'' 1000]) ''A'') 1100
             (watcher 900 Map.empty {}))
     = []"
proof -
  let ?f = "server_fetchNew (chat [text_message ''B'' ''first'' 1000]) ''A''"
  have fetched: "?f ''T'' (lastKnownTime (watcher 900 Map.empty {}) ''T'')
        = Ok [text_message ''B'' ''first'' 1000]"
    by (simp add: server_fetchNew_chat lastKnownTime_def watcher_def where_new_def
        text_message_def)
  have loop: "check_transactions ?f ''A'' [formattedTransaction ''T'']
                (watcher 900 Map.empty {})
        = (False, watcher 900 Map.empty {}, [])"
    by (rule server_listing_throws(2)
          [where fetchNew = ?f and tid = "''T''" and n = "watcher 900 Map.empty {}"
             and u = "''A''", OF _ fetched])
      (simp_all add: watcher_def text_message_def)
  have pass: "checkForNewMessages False (Some ''token'') (Ok [formattedTransaction ''T''])
        ?f 1100 (watcher 900 Map.empty {})
     = (watcher 900 Map.empty {}, [])"
    using checkForNewMessages_run [where n = "watcher 900 Map.empty {}" and u = "''A''"
        and hidden = False and token = "Some ''token''" and tok = "''token''"
        and listing = "Ok [formattedTransaction ''T'']" and txs = "[formattedTransaction ''T'']",
        OF _ _ _ _ loop]
    by (simp add: watcher_def)
  show ?thesis
    unfolding pass
    by (simp add: after_watermark_def GET_new_chat lastKnownTime_def where_new_def
        text_message_def watcher_def)
qed

text \<open>
  A second defect, behind the first: with a listing element that carries the \<open>buyer\<close>
  and \<open>seller\<close> objects that the poller's interface declares, a pass that has shown the
  message created at 1000 sets the watermark to 1000, and the next pass over the
  unchanged chat fetches the message again (1000 is after 1000 - 500) and shows the same
  toast again: the poller compares no fetched message with the watermark.
\<close>

lemma toast_shown_again:
  "checkForNewMessages False (Some ''token'') (Ok [listedT])
     (server_fetchNew (chat [text_message ''B'' ''first'' 1000]) ''A'') 1100
     (watcher 900 Map.empty {})
   = (watcher 1100 [''T'' \<mapsto> 1000] {}, [message_toast ''Bob'' ''first'' ''T''])"
  "checkForNewMessages False (Some ''token'') (Ok [listedT])
     (server_fetchNew (chat [text_message ''B'' ''first'' 1000]) ''A'') 6100
     (watcher 1100 [''T'' \<mapsto> 1000] {})
   = (watcher 6100 [''T'' \<mapsto> 1000] {}, [message_toast ''Bob'' ''first'' ''T''])"
  by (simp_all add: checkForNewMessages_def check_transaction_def requested_def
      lastKnownTime_def server_fetchNew_chat where_new_def text_message_def listedT_def
      watcher_def Let_def)

text \<open>
  C7 (as amended). When the pass reaches a listed transaction that is not suppressed, it
  asks for the messages after \<open>W\<close>, where \<open>W\<close> is the last-seen timestamp of the
  transaction when there is one and the time of the last check otherwise. The server
  answers a party with the 50 oldest of the messages of that transaction created after
  \<open>W - 500\<close>, or with all of them when there are at most 50, in ascending order of
  \<open>createdAt\<close>: the answer is a part of these messages, of that length, and every such
  message that is left out is at least as new as every message of the answer.
\<close>

theorem requested_window:
  assumes req: "requested n t = Some (tid, after)"
    and tx: "transactions d tid = Some tr"
    and party: "u = buyerId tr \<or> u = sellerId tr"
  shows "tid = listed_id t \<and> tid \<notin> activeTransactionIds n
     \<and> after = (case lastMessageTimestamps n tid of
                  Some seen \<Rightarrow> Some seen
                | None \<Rightarrow> lastCheckTime n)
     \<and> (\<exists>ms. server_fetchNew d u tid after = Ok ms
           \<and> length ms
               = min 50 (length (filter (\<lambda>m. transactionId m = tid
                                  \<and> (\<forall>w. after = Some w \<longrightarrow> w - 500 < createdAt m))
                           (messages d)))
           \<and> sorted (map createdAt ms)
           \<and> mset ms \<subseteq># mset (filter (\<lambda>m. transactionId m = tid
                                  \<and> (\<forall>w. after = Some w \<longrightarrow> w - 500 < createdAt m))
                           (messages d))
           \<and> (\<forall>m \<in> set ms.
                \<forall>m' \<in># mset (filter (\<lambda>m. transactionId m = tid
                                  \<and> (\<forall>w. after = Some w \<longrightarrow> w - 500 < createdAt m))
                           (messages d)) - mset ms.
                  createdAt m \<le> createdAt m'))"
proof -
  let ?P = "\<lambda>m. transactionId m = tid \<and> (\<forall>w. after = Some w \<longrightarrow> w - 500 < createdAt m)"
  let ?Q = "filter ?P (messages d)"
  have P: "where_new tid after = ?P"
    by (auto simp add: where_new_def fun_eq_iff split: option.splits)
  let ?all = "sort_key createdAt ?Q"
  have run: "server_fetchNew d u tid after = Ok (take 50 ?all)"
    using tx party by (auto simp add: server_fetchNew_def GET_new_def findMany_new_def P)
  have len: "length (take 50 ?all) = min 50 (length ?Q)"
    by simp
  have srt_all: "sorted (map createdAt ?all)" by (rule sorted_sort_key)
  have srt: "sorted (map createdAt (take 50 ?all))"
    using srt_all by (simp add: take_map [symmetric])
  have split: "mset ?Q = mset (take 50 ?all) + mset (drop 50 ?all)"
  proof -
    have "mset (take 50 ?all @ drop 50 ?all) = mset ?all"
      by (simp only: append_take_drop_id)
    then show ?thesis by (simp only: mset_sort mset_append)
  qed
  have sub: "mset (take 50 ?all) \<subseteq># mset ?Q"
    unfolding split by simp
  have rest: "mset ?Q - mset (take 50 ?all) = mset (drop 50 ?all)"
    unfolding split by simp
  have older: "\<forall>m \<in> set (take 50 ?all). \<forall>m' \<in># mset ?Q - mset (take 50 ?all).
                 createdAt m \<le> createdAt m'"
    unfolding rest using sorted_take_drop_le [OF srt_all] by auto
  from req have sent: "tid = listed_id t" "tid \<notin> activeTransactionIds n"
    "after = (case lastMessageTimestamps n tid of
                Some seen \<Rightarrow> Some seen
              | None \<Rightarrow> lastCheckTime n)"
    by (auto simp add: requested_def lastKnownTime_def split: if_splits)
  have "\<exists>ms. server_fetchNew d u tid after = Ok ms
           \<and> length ms = min 50 (length ?Q)
           \<and> sorted (map createdAt ms)
           \<and> mset ms \<subseteq># mset ?Q
           \<and> (\<forall>m \<in> set ms. \<forall>m' \<in># mset ?Q - mset ms. createdAt m \<le> createdAt m')"
    by (rule exI [of _ "take 50 ?all"]) (intro conjI run len srt sub older)
  with sent show ?thesis by (intro conjI)
qed

text \<open>
  C7 as stated fails: with a last-seen timestamp of 1000 and a last check at 5000, the
  poller asks for the messages after 1000 and the server returns a message created at
  2000, which is not after \<open>max 1000 5000 - 500\<close>.
\<close>

theorem fetch_window_not_max:
  "lastMessageTimestamps (watcher 5000 [''T'' \<mapsto> 1000] {}) ''T'' = Some 1000
   \<and> lastCheckTime (watcher 5000 [''T'' \<mapsto> 1000] {}) = Some 5000
   \<and> requested (watcher 5000 [''T'' \<mapsto> 1000] {}) (formattedTransaction ''T'')
       = Some (''T'', Some 1000)
   \<and> server_fetchNew (chat [text_message ''B'' ''hello'' 2000]) ''A'' ''T'' (Some 1000)
       = Ok [text_message ''B'' ''hello'' 2000]
   \<and> \<not> (max 1000 5000 - 500 < createdAt (text_message ''B'' ''hello'' 2000))"
  by (simp add: requested_def lastKnownTime_def watcher_def formattedTransaction_def
      server_fetchNew_chat where_new_def text_message_def)

theorem requested_window_witness:
  "requested (watcher 900 Map.empty {}) (formattedTransaction ''T'') = Some (''T'', Some 900)
   \<and> length (filter (\<lambda>m. transactionId m = ''T'' \<and> 400 < createdAt m)
               (messages (chat burst))) = 51
   \<and> (\<exists>ms. server_fetchNew (chat burst) ''A'' ''T'' (Some 900) = Ok ms
          \<and> length ms = 50 \<and> sorted (map createdAt ms))"
proof -
  have req: "requested (watcher 900 Map.empty {}) (formattedTransaction ''T'')
               = Some (''T'', Some 900)"
    by (simp add: requested_def lastKnownTime_def watcher_def formattedTransaction_def)
  have all: "filter (\<lambda>m. transactionId m = ''T'' \<and> 400 < createdAt m) burst = burst"
    by (rule filter_True) (auto simp add: burst_def text_message_def)
  have len: "length burst = 51" by (simp add: burst_def)
  show ?thesis
    using requested_window [OF req, where d = "chat burst" and tr = "deal PAID"
        and u = "''A''"] req
    by (auto simp add: chat_simps market_simps all len)
qed

end
